theory Spec2Isabelle
  imports Main "HOL-Library.Word" "HOL-Library.Sublist"
begin

unbundle bit_operations_syntax

section \<open>Bytes, failures and matrices\<close>

text \<open>
  The core is \<^verbatim>\<open>ultrasound_core.cpp\<close> with its header \<^verbatim>\<open>ultrasound_core.h\<close>.
  \<^verbatim>\<open>uint8_t\<close>, \<^verbatim>\<open>uint16_t\<close>, \<^verbatim>\<open>uint32_t\<close> and \<^verbatim>\<open>uint64_t\<close> are words of that width;
  \<^verbatim>\<open>size_t\<close> is the 64-bit word of an LP64 target, and its arithmetic wraps.
  A \<^verbatim>\<open>std::vector<uint8_t>\<close> is a byte list, \<^verbatim>\<open>data.size()\<close> its length.
\<close>

type_synonym byte = "8 word"
type_synonym size_t = "64 word"

text \<open>
  Every \<^verbatim>\<open>throw std::runtime_error(msg)\<close> of the source is one constructor, named
  after its message:
  \<^item> \<open>NullDataPointer\<close>: "Null data pointer" (\<^verbatim>\<open>parseHeader\<close>);
  \<^item> \<open>DataTooSmall\<close>: "Data too small to contain header" (the spec's FormatError);
  \<^item> \<open>InvalidHeader\<close>: "Invalid header: magic ID mismatch" (InvalidHeaderError);
  \<^item> \<open>DataSizeMismatch\<close>: "Data size mismatch" (SizeMismatchError);
  \<^item> \<open>EmptyFrame\<close>: "Empty frame" (EmptyFrameError);
  \<^item> \<open>AiNotImplemented\<close>: "AI inference not yet implemented. ..." (NotImplementedError).

  \<open>CvException\<close> is a \<^verbatim>\<open>cv::Exception\<close> raised inside an OpenCV call.
  \<open>OutOfBoundsRead\<close> and \<open>OutOfBoundsWrite\<close> are not exceptions: they mark a
  \<^verbatim>\<open>memcpy\<close> that leaves its source or destination buffer, which C++ leaves undefined.
\<close>

datatype error =
    NullDataPointer
  | DataTooSmall
  | InvalidHeader
  | DataSizeMismatch
  | EmptyFrame
  | AiNotImplemented
  | CvException
  | OutOfBoundsRead
  | OutOfBoundsWrite

definition bindE :: "error + 'a \<Rightarrow> ('a \<Rightarrow> error + 'b) \<Rightarrow> error + 'b" where
  "bindE r f = (case r of Inl e \<Rightarrow> Inl e | Inr v \<Rightarrow> f v)"

text \<open>
  A single-channel \<^verbatim>\<open>cv::Mat\<close>: \<open>rows\<close>, \<open>cols\<close> and the samples in row-major order.
  The sample type is a parameter: the decoder produces bytes that may still be
  uninitialised (\<open>byte option\<close>, \<open>None\<close> for a byte never written), the filter
  pipeline works on whatever depth the caller passes.
\<close>

record 's Mat =
  rows :: nat
  cols :: nat
  samples :: "'s list"

text \<open>\<^verbatim>\<open>cv::Mat m(rows, cols, CV_8UC1)\<close> allocates \<open>rows * cols\<close> bytes and does not initialise them.\<close>

definition Mat_create :: "nat \<Rightarrow> nat \<Rightarrow> byte option Mat" where
  "Mat_create r c = \<lparr>rows = r, cols = c, samples = replicate (r * c) None\<rparr>"

text \<open>\<^verbatim>\<open>Mat::empty()\<close>: no element at all (\<^verbatim>\<open>total() == 0\<close>).\<close>

definition Mat_empty :: "'s Mat \<Rightarrow> bool" where
  "Mat_empty m \<longleftrightarrow> rows m * cols m = 0"

text \<open>
  \<^verbatim>\<open>memcpy(dst, src, n)\<close> into a buffer of \<open>length dst\<close> bytes from one of \<open>length src\<close>
  bytes: the first \<open>n\<close> bytes of the destination are overwritten, the rest keep their
  content. Leaving either buffer is a fault.
\<close>

definition memcpy :: "byte option list \<Rightarrow> byte list \<Rightarrow> nat \<Rightarrow> error + byte option list" where
  "memcpy dst src n =
     (if length src < n then Inl OutOfBoundsRead
      else if length dst < n then Inl OutOfBoundsWrite
      else Inr (map Some (take n src) @ drop n dst))"

section \<open>Little-endian fields\<close>

text \<open>
  \<^verbatim>\<open>memcpy(&field, ptr, sizeof field)\<close> on a little-endian host: the first byte is the
  least significant one.
\<close>

fun le_word :: "byte list \<Rightarrow> 'a::len word" where
  "le_word [] = 0"
| "le_word (b # bs) = ucast b OR push_bit 8 (le_word bs)"

definition read_le :: "byte list \<Rightarrow> nat \<Rightarrow> nat \<Rightarrow> 'a::len word" where
  "read_le ptr off n = le_word (take n (drop off ptr))"

text \<open>The inverse direction, used to write test frames: the \<open>n\<close> low bytes of a word, least significant first.\<close>

fun le_bytes :: "nat \<Rightarrow> 'a::len word \<Rightarrow> byte list" where
  "le_bytes 0 w = []"
| "le_bytes (Suc n) w = ucast w # le_bytes n (drop_bit 8 w)"

section \<open>UltraHeader\<close>

record UltraHeader =
  magicId :: "32 word"
  width :: "16 word"
  height :: "16 word"
  depth :: "16 word"
  bytesPerVoxel :: "16 word"
  frameNumber :: "32 word"
  timestamp :: "64 word"
  reserved :: "32 word"
  crc :: "32 word"

definition MAGIC_ID :: "32 word" where
  "MAGIC_ID = 0x554C5452"

definition HEADER_SIZE :: nat where
  "HEADER_SIZE = 32"

definition isValid :: "UltraHeader \<Rightarrow> bool" where
  "isValid h \<longleftrightarrow> magicId h = MAGIC_ID \<and> 0 < width h \<and> 0 < height h \<and> 0 < bytesPerVoxel h"

text \<open>\<^verbatim>\<open>static_cast<size_t>(width) * height * depth * bytesPerVoxel\<close>, computed in \<^verbatim>\<open>size_t\<close>.\<close>

definition getFrameDataSize :: "UltraHeader \<Rightarrow> size_t" where
  "getFrameDataSize h =
     (ucast (width h) :: size_t) * ucast (height h) * ucast (depth h) * ucast (bytesPerVoxel h)"

record UltraFrame =
  header :: UltraHeader
  frame :: "byte option Mat"

section \<open>Frame decoding\<close>

text \<open>
  \<^verbatim>\<open>parseHeader(const uint8_t* data)\<close>: the pointer is \<open>None\<close> when null, otherwise the
  bytes it points to. The nine \<^verbatim>\<open>memcpy\<close> calls read 32 bytes; a shorter buffer is a read
  out of bounds.
\<close>

definition parseHeader :: "byte list option \<Rightarrow> error + UltraHeader" where
  "parseHeader data =
     (case data of
        None \<Rightarrow> Inl NullDataPointer
      | Some ptr \<Rightarrow>
          if length ptr < 32 then Inl OutOfBoundsRead
          else Inr \<lparr>magicId = read_le ptr 0 4,
                    width = read_le ptr 4 2,
                    height = read_le ptr 6 2,
                    depth = read_le ptr 8 2,
                    bytesPerVoxel = read_le ptr 10 2,
                    frameNumber = read_le ptr 12 4,
                    timestamp = read_le ptr 16 8,
                    reserved = read_le ptr 24 4,
                    crc = read_le ptr 28 4\<rparr>)"

text \<open>
  \<^verbatim>\<open>extractFrameData\<close>: \<open>frameData = data + HEADER_SIZE\<close>, a matrix of \<open>height\<close> rows
  and \<open>width\<close> columns of one byte each, and a \<^verbatim>\<open>memcpy\<close> of \<open>frameSize\<close> bytes into it.
\<close>

definition extractFrameData :: "byte list \<Rightarrow> UltraHeader \<Rightarrow> error + byte option Mat" where
  "extractFrameData data hdr =
     (let frameData = drop HEADER_SIZE data;
          frameSize = unat (getFrameDataSize hdr);
          m = Mat_create (unat (height hdr)) (unat (width hdr))
      in bindE (memcpy (samples m) frameData frameSize)
           (\<lambda>written. Inr (m\<lparr>samples := written\<rparr>)))"

subsection \<open>CRC-32\<close>

text \<open>
  Modelled from the spec: zlib's \<^verbatim>\<open>crc32\<close> is a library function whose code is not
  under \<^verbatim>\<open>src/\<close>. The spec (4.1) names it: the CRC-32 with the standard polynomial.
  That is the reflected polynomial \<open>0xEDB88320\<close>, the running value complemented on
  entry and on exit, one byte at a time, eight shifts per byte. \<open>crc32_bytes c bs\<close> is
  that checksum over all of \<open>bs\<close>, continuing from the running value \<open>c\<close>.

  The library function is \<^verbatim>\<open>crc32(uLong crc, const Bytef *buf, uInt len)\<close>: its length
  is an \<^verbatim>\<open>unsigned int\<close>, 32 bits wide, and it reads the first \<open>len\<close> bytes at \<open>buf\<close>.
  Its result fits 32 bits, the width \<^verbatim>\<open>calculateCrc32\<close> returns.
\<close>

type_synonym uInt = "32 word"

definition crc32_shift :: "32 word \<Rightarrow> 32 word" where
  "crc32_shift c = (if bit c 0 then drop_bit 1 c XOR 0xEDB88320 else drop_bit 1 c)"

definition crc32_byte :: "32 word \<Rightarrow> byte \<Rightarrow> 32 word" where
  "crc32_byte c b = (crc32_shift ^^ 8) (c XOR ucast b)"

definition crc32_bytes :: "32 word \<Rightarrow> byte list \<Rightarrow> 32 word" where
  "crc32_bytes c bs = foldl crc32_byte (c XOR 0xFFFFFFFF) bs XOR 0xFFFFFFFF"

definition crc32 :: "32 word \<Rightarrow> byte list \<Rightarrow> uInt \<Rightarrow> 32 word" where
  "crc32 c buf len = crc32_bytes c (take (unat len) buf)"

text \<open>
  \<^verbatim>\<open>calculateCrc32(data, length)\<close> passes its \<^verbatim>\<open>size_t\<close> length on to \<^verbatim>\<open>crc32\<close>, where
  the implicit conversion to \<^verbatim>\<open>uInt\<close> keeps the low 32 bits. \<open>buf\<close> is the memory from
  the pointer \<open>data\<close> on.
\<close>

definition calculateCrc32 :: "byte list \<Rightarrow> size_t \<Rightarrow> 32 word" where
  "calculateCrc32 buf len = crc32 0 buf (ucast len)"

text \<open>
  \<^verbatim>\<open>validateCrc\<close>: the pointer \<^verbatim>\<open>data.data() + 28\<close> and the length \<^verbatim>\<open>data.size() - 28\<close>,
  computed in \<^verbatim>\<open>size_t\<close>.
\<close>

definition validateCrc :: "byte list \<Rightarrow> 32 word \<Rightarrow> bool" where
  "validateCrc data expectedCrc =
     (if length data < HEADER_SIZE then False
      else let calculatedCrc =
                 calculateCrc32 (drop 28 data) ((of_nat (length data) :: size_t) - 28)
           in calculatedCrc = expectedCrc)"

subsection \<open>loadFrameFromBytes\<close>

text \<open>
  The guards in the order of the source. The result of \<^verbatim>\<open>validateCrc\<close> selects
  between a block that holds only comments and nothing, so both branches are the unit
  value, and nothing after it reads that value.
\<close>

definition loadFrameFromBytes :: "byte list \<Rightarrow> error + UltraFrame" where
  "loadFrameFromBytes data =
     (if length data < HEADER_SIZE then Inl DataTooSmall
      else bindE (parseHeader (Some data)) (\<lambda>hdr.
        if \<not> isValid hdr then Inl InvalidHeader
        else let expectedSize = (of_nat HEADER_SIZE :: size_t) + getFrameDataSize hdr
             in if length data < unat expectedSize then Inl DataSizeMismatch
                else let warned = (if \<not> validateCrc data (crc hdr) then () else ())
                     in bindE (extractFrameData data hdr)
                          (\<lambda>m. Inr \<lparr>header = hdr, frame = m\<rparr>)))"

subsection \<open>Writing a frame\<close>

text \<open>
  The repository has no encoder. This one follows the layout table of the spec (6):
  the nine fields little-endian at offsets 0, 4, 6, 8, 10, 12, 16, 24 and 28, then the
  payload.
\<close>

definition encodeHeader :: "UltraHeader \<Rightarrow> byte list" where
  "encodeHeader h =
     le_bytes 4 (magicId h) @ le_bytes 2 (width h) @ le_bytes 2 (height h) @
     le_bytes 2 (depth h) @ le_bytes 2 (bytesPerVoxel h) @ le_bytes 4 (frameNumber h) @
     le_bytes 8 (timestamp h) @ le_bytes 4 (reserved h) @ le_bytes 4 (crc h)"

definition encode :: "UltraHeader \<Rightarrow> byte list \<Rightarrow> byte list" where
  "encode h payload = encodeHeader h @ payload"

section \<open>The AI hook\<close>

text \<open>\<^verbatim>\<open>runAiInference\<close> has one statement, the \<^verbatim>\<open>throw\<close>.\<close>

definition runAiInference :: "'s Mat \<Rightarrow> string \<Rightarrow> error + 's Mat" where
  "runAiInference img modelPath = Inl AiNotImplemented"

section \<open>The filter pipeline\<close>

subsection \<open>ProcessingParams\<close>

text \<open>
  A \<^verbatim>\<open>float\<close> is its IEEE-754 binary32 bit pattern and an \<^verbatim>\<open>int\<close> a 32-bit word read
  in two's complement. The pipeline only compares floats with the literal \<^verbatim>\<open>1.0f\<close>:
  \<^verbatim>\<open>x != 1.0f\<close> holds for every float but 1.0, NaN included, and 1.0 has the single bit
  pattern \<open>0x3F800000\<close>, so the comparison is inequality of bit patterns.

  The field \<^verbatim>\<open>normalize\<close> is \<open>normalize_flag\<close> here, since \<open>normalize\<close> is a constant
  of HOL.
\<close>

type_synonym float = "32 word"
type_synonym cint = "32 word"

definition float_1 :: float where
  "float_1 = 0x3F800000"

record ProcessingParams =
  normalize_flag :: bool
  denoise :: bool
  gain :: float
  gaussianBlur :: bool
  blurKernelSize :: cint
  sharpen :: bool
  sharpenAmount :: float
  contrastAlpha :: float
  contrastBeta :: cint
  enableAiPreprocessing :: bool

subsection \<open>The OpenCV calls\<close>

text \<open>
  OpenCV is a library: its code is not under \<^verbatim>\<open>src/\<close>, so the six calls the pipeline
  makes are parameters, each returning a matrix or raising. A \<^verbatim>\<open>double\<close> argument that
  the source computes from a float is kept as the expression the source writes: the
  float converted, \<^verbatim>\<open>1.0 + amount\<close>, or \<^verbatim>\<open>-amount\<close>. Arguments that are integer literals
  or \<^verbatim>\<open>int\<close> values in the source are integers.
  \<^item> \<open>cv_normalize m a b\<close>: \<^verbatim>\<open>cv::normalize(m, dst, a, b, cv::NORM_MINMAX)\<close>;
  \<^item> \<open>cv_fastNlMeansDenoising m h t s\<close>: \<^verbatim>\<open>cv::fastNlMeansDenoising(m, dst, h, t, s)\<close>;
  \<^item> \<open>cv_convertTo m alpha beta\<close>: \<^verbatim>\<open>m.convertTo(dst, -1, alpha, beta)\<close>, the depth kept;
  \<^item> \<open>cv_GaussianBlur m (w, h) sigma\<close>: \<^verbatim>\<open>cv::GaussianBlur(m, dst, cv::Size(w, h), sigma)\<close>;
  \<^item> \<open>cv_addWeighted m1 alpha m2 beta gamma\<close>: \<^verbatim>\<open>cv::addWeighted(m1, alpha, m2, beta, gamma, dst)\<close>;
  \<^item> \<open>cv_convertTo_8UC1 m\<close>: \<^verbatim>\<open>m.convertTo(dst, CV_8UC1)\<close>, whose result has byte samples.
\<close>

datatype dbl = OfFloat float | OnePlus float | Negated float

record 's opencv =
  cv_normalize :: "'s Mat \<Rightarrow> int \<Rightarrow> int \<Rightarrow> error + 's Mat"
  cv_fastNlMeansDenoising :: "'s Mat \<Rightarrow> int \<Rightarrow> int \<Rightarrow> int \<Rightarrow> error + 's Mat"
  cv_convertTo :: "'s Mat \<Rightarrow> dbl \<Rightarrow> int \<Rightarrow> error + 's Mat"
  cv_GaussianBlur :: "'s Mat \<Rightarrow> int \<times> int \<Rightarrow> int \<Rightarrow> error + 's Mat"
  cv_addWeighted :: "'s Mat \<Rightarrow> dbl \<Rightarrow> 's Mat \<Rightarrow> dbl \<Rightarrow> int \<Rightarrow> error + 's Mat"
  cv_convertTo_8UC1 :: "'s Mat \<Rightarrow> error + byte Mat"

subsection \<open>The processing helpers\<close>

definition normalizeIntensity :: "'s opencv \<Rightarrow> 's Mat \<Rightarrow> error + 's Mat" where
  "normalizeIntensity cv img = cv_normalize cv img 0 255"

definition applyDenoise :: "'s opencv \<Rightarrow> 's Mat \<Rightarrow> error + 's Mat" where
  "applyDenoise cv img = cv_fastNlMeansDenoising cv img 10 7 21"

definition applyGain :: "'s opencv \<Rightarrow> 's Mat \<Rightarrow> float \<Rightarrow> error + 's Mat" where
  "applyGain cv img g = cv_convertTo cv img (OfFloat g) 0"

definition applySharpen :: "'s opencv \<Rightarrow> 's Mat \<Rightarrow> float \<Rightarrow> error + 's Mat" where
  "applySharpen cv img amount =
     bindE (cv_GaussianBlur cv img (0, 0) 3)
       (\<lambda>blurred. cv_addWeighted cv img (OnePlus amount) blurred (Negated amount) 0)"

subsection \<open>applyFilters\<close>

text \<open>
  \<^verbatim>\<open>frame.clone()\<close> is a deep copy, the matrix itself here. Each \<^verbatim>\<open>if\<close> of the source
  either replaces \<open>processed\<close> or leaves it; the last two statements are not guarded.
\<close>

definition applyFilters :: "'s opencv \<Rightarrow> 's Mat \<Rightarrow> ProcessingParams \<Rightarrow> error + byte Mat" where
  "applyFilters cv img params =
     (if Mat_empty img then Inl EmptyFrame
      else
        bindE (if normalize_flag params then normalizeIntensity cv img else Inr img)
        (\<lambda>processed.
        bindE (if gain params \<noteq> float_1 then applyGain cv processed (gain params)
               else Inr processed)
        (\<lambda>processed.
        bindE (if denoise params then applyDenoise cv processed else Inr processed)
        (\<lambda>processed.
        bindE (if gaussianBlur params \<and> 0 <s blurKernelSize params
               then cv_GaussianBlur cv processed
                      (sint (blurKernelSize params), sint (blurKernelSize params)) 0
               else Inr processed)
        (\<lambda>processed.
        bindE (if sharpen params then applySharpen cv processed (sharpenAmount params)
               else Inr processed)
        (\<lambda>processed.
        bindE (if contrastAlpha params \<noteq> float_1 \<or> contrastBeta params \<noteq> 0
               then cv_convertTo cv processed (OfFloat (contrastAlpha params))
                      (sint (contrastBeta params))
               else Inr processed)
        (\<lambda>processed.
        bindE (cv_normalize cv processed 0 255)
        (\<lambda>clamped. cv_convertTo_8UC1 cv clamped))))))))"

subsection \<open>The pipeline as the spec words it\<close>

text \<open>
  The spec (4.2) lists six gated stages in a fixed order and a final rescale that is
  always applied. The definitions below follow that wording, to be compared with
  \<open>applyFilters\<close>: \<open>staged_pipeline\<close> runs the stages of \<open>stage_order\<close> whose gate holds,
  in that order, then the final rescale.
\<close>

datatype stage = Normalize | Gain | Denoise | GaussianBlur | Sharpen | Contrast

definition stage_order :: "stage list" where
  "stage_order = [Normalize, Gain, Denoise, GaussianBlur, Sharpen, Contrast]"

text \<open>The gates as the spec states them: the blur needs an odd, positive kernel size.\<close>

fun claimed_gate :: "ProcessingParams \<Rightarrow> stage \<Rightarrow> bool" where
  "claimed_gate p Normalize = normalize_flag p"
| "claimed_gate p Gain = (gain p \<noteq> float_1)"
| "claimed_gate p Denoise = denoise p"
| "claimed_gate p GaussianBlur =
     (gaussianBlur p \<and> odd (sint (blurKernelSize p)) \<and> 0 < sint (blurKernelSize p))"
| "claimed_gate p Sharpen = sharpen p"
| "claimed_gate p Contrast = (contrastAlpha p \<noteq> float_1 \<or> contrastBeta p \<noteq> 0)"

text \<open>The same gates, with a blur that only needs a positive kernel size.\<close>

fun stage_gate :: "ProcessingParams \<Rightarrow> stage \<Rightarrow> bool" where
  "stage_gate p Normalize = normalize_flag p"
| "stage_gate p Gain = (gain p \<noteq> float_1)"
| "stage_gate p Denoise = denoise p"
| "stage_gate p GaussianBlur = (gaussianBlur p \<and> 0 < sint (blurKernelSize p))"
| "stage_gate p Sharpen = sharpen p"
| "stage_gate p Contrast = (contrastAlpha p \<noteq> float_1 \<or> contrastBeta p \<noteq> 0)"

fun run_stage :: "'s opencv \<Rightarrow> ProcessingParams \<Rightarrow> stage \<Rightarrow> 's Mat \<Rightarrow> error + 's Mat" where
  "run_stage cv p Normalize m = normalizeIntensity cv m"
| "run_stage cv p Gain m = applyGain cv m (gain p)"
| "run_stage cv p Denoise m = applyDenoise cv m"
| "run_stage cv p GaussianBlur m =
     cv_GaussianBlur cv m (sint (blurKernelSize p), sint (blurKernelSize p)) 0"
| "run_stage cv p Sharpen m = applySharpen cv m (sharpenAmount p)"
| "run_stage cv p Contrast m = cv_convertTo cv m (OfFloat (contrastAlpha p)) (sint (contrastBeta p))"

fun run_stages :: "'s opencv \<Rightarrow> ProcessingParams \<Rightarrow> stage list \<Rightarrow> 's Mat \<Rightarrow> error + 's Mat" where
  "run_stages cv p [] m = Inr m"
| "run_stages cv p (st # sts) m = bindE (run_stage cv p st m) (run_stages cv p sts)"

definition final_rescale :: "'s opencv \<Rightarrow> 's Mat \<Rightarrow> error + byte Mat" where
  "final_rescale cv m = bindE (cv_normalize cv m 0 255) (cv_convertTo_8UC1 cv)"

definition enabled_stages :: "(ProcessingParams \<Rightarrow> stage \<Rightarrow> bool) \<Rightarrow> ProcessingParams \<Rightarrow> stage list" where
  "enabled_stages gate p = filter (gate p) stage_order"

definition staged_pipeline ::
  "(ProcessingParams \<Rightarrow> stage \<Rightarrow> bool) \<Rightarrow> 's opencv \<Rightarrow> 's Mat \<Rightarrow> ProcessingParams \<Rightarrow> error + byte Mat" where
  "staged_pipeline gate cv img p =
     bindE (run_stages cv p (enabled_stages gate p) img) (final_rescale cv)"

subsection \<open>What the library is assumed to do\<close>

text \<open>Every OpenCV call of the pipeline returns a matrix of the size of its (first) input.\<close>

definition cv_keeps_size :: "'s opencv \<Rightarrow> bool" where
  "cv_keeps_size cv \<longleftrightarrow>
     (\<forall>m a b m'. cv_normalize cv m a b = Inr m' \<longrightarrow> rows m' = rows m \<and> cols m' = cols m) \<and>
     (\<forall>m h t s m'. cv_fastNlMeansDenoising cv m h t s = Inr m' \<longrightarrow> rows m' = rows m \<and> cols m' = cols m) \<and>
     (\<forall>m a b m'. cv_convertTo cv m a b = Inr m' \<longrightarrow> rows m' = rows m \<and> cols m' = cols m) \<and>
     (\<forall>m k s m'. cv_GaussianBlur cv m k s = Inr m' \<longrightarrow> rows m' = rows m \<and> cols m' = cols m) \<and>
     (\<forall>m a m2 b g m'. cv_addWeighted cv m a m2 b g = Inr m' \<longrightarrow> rows m' = rows m \<and> cols m' = cols m) \<and>
     (\<forall>m m'. cv_convertTo_8UC1 cv m = Inr m' \<longrightarrow> rows m' = rows m \<and> cols m' = cols m)"

text \<open>No OpenCV call raises.\<close>

definition cv_never_raises :: "'s opencv \<Rightarrow> bool" where
  "cv_never_raises cv \<longleftrightarrow>
     (\<forall>m a b. \<exists>m'. cv_normalize cv m a b = Inr m') \<and>
     (\<forall>m h t s. \<exists>m'. cv_fastNlMeansDenoising cv m h t s = Inr m') \<and>
     (\<forall>m a b. \<exists>m'. cv_convertTo cv m a b = Inr m') \<and>
     (\<forall>m k s. \<exists>m'. cv_GaussianBlur cv m k s = Inr m') \<and>
     (\<forall>m a m2 b g. \<exists>m'. cv_addWeighted cv m a m2 b g = Inr m') \<and>
     (\<forall>m. \<exists>m'. cv_convertTo_8UC1 cv m = Inr m')"

subsection \<open>Normalisation of 8-bit matrices\<close>

text \<open>
  Modelled from the spec: \<^verbatim>\<open>cv::normalize\<close> with \<^verbatim>\<open>NORM_MINMAX\<close> and the conversion to
  \<^verbatim>\<open>CV_8UC1\<close> are OpenCV code, not under \<^verbatim>\<open>src/\<close>. The spec (4.2) describes them: a
  linear min-max rescale of the sample values into the target range, and a
  quantisation to 8-bit samples. On a matrix of bytes with least sample \<open>lo\<close> and
  greatest sample \<open>hi\<close>, a sample \<open>v\<close> becomes \<open>a + (v - lo) * (b - a) / (hi - lo)\<close>,
  rounded to the nearest integer and saturated to a byte. The arithmetic is exact here,
  where OpenCV computes in floating point. A constant matrix has no range to stretch:
  every sample becomes \<open>a\<close>. Quantising a matrix of bytes leaves it as it is.
\<close>

definition saturate_u8 :: "int \<Rightarrow> byte" where
  "saturate_u8 x = word_of_int (max 0 (min 255 x))"

definition stretch :: "int \<Rightarrow> int \<Rightarrow> int \<Rightarrow> int \<Rightarrow> int \<Rightarrow> int" where
  "stretch lo hi a b v =
     (if hi = lo then a
      else a + ((v - lo) * (b - a) * 2 + (hi - lo)) div (2 * (hi - lo)))"

definition minmax_normalize :: "byte Mat \<Rightarrow> int \<Rightarrow> int \<Rightarrow> error + byte Mat" where
  "minmax_normalize m a b =
     (case map uint (samples m) of
        [] \<Rightarrow> Inr m
      | v # vs \<Rightarrow>
          let lo = fold min vs v; hi = fold max vs v
          in Inr (m\<lparr>samples := map (\<lambda>x. saturate_u8 (stretch lo hi a b (uint x))) (samples m)\<rparr>))"

definition quantize_8U :: "byte Mat \<Rightarrow> error + byte Mat" where
  "quantize_8U m = Inr m"

text \<open>
  A stand-in for OpenCV on 8-bit matrices, for running the pipeline on concrete inputs:
  normalisation and quantisation as above; \<^verbatim>\<open>cv::GaussianBlur\<close> checks its kernel size as
  OpenCV does (each side odd and positive, or both 0 with a positive sigma) and raises
  otherwise; the calls are otherwise the identity on the matrix.
\<close>

definition cv_standin :: "byte opencv" where
  "cv_standin =
     \<lparr>cv_normalize = minmax_normalize,
      cv_fastNlMeansDenoising = (\<lambda>m h t s. Inr m),
      cv_convertTo = (\<lambda>m alpha beta. Inr m),
      cv_GaussianBlur = (\<lambda>m k sigma.
         if (fst k = 0 \<and> snd k = 0 \<and> 0 < sigma)
            \<or> (0 < fst k \<and> odd (fst k) \<and> 0 < snd k \<and> odd (snd k))
         then Inr m else Inl CvException),
      cv_addWeighted = (\<lambda>m1 alpha m2 beta gamma. Inr m1),
      cv_convertTo_8UC1 = quantize_8U\<rparr>"

text \<open>The same stand-in with a blur that accepts every kernel size, so that no call raises.\<close>

definition cv_lenient :: "byte opencv" where
  "cv_lenient = cv_standin\<lparr>cv_GaussianBlur := (\<lambda>m k sigma. Inr m)\<rparr>"

section \<open>Test frames\<close>

text \<open>
  A well-formed 2 by 2 frame: magic "ULTR", width 2, height 2, depth 1, one byte per
  voxel, frame number 7, timestamp 1000, checksum field 0, payload 10 20 30 40.
\<close>

definition frame_2x2 :: "byte list" where
  "frame_2x2 = [0x52, 0x54, 0x4C, 0x55,  2, 0,  2, 0,  1, 0,  1, 0,  7, 0, 0, 0,
                0xE8, 3, 0, 0, 0, 0, 0, 0,  0, 0, 0, 0,  0, 0, 0, 0,
                10, 20, 30, 40]"

definition header_2x2 :: UltraHeader where
  "header_2x2 = \<lparr>magicId = MAGIC_ID, width = 2, height = 2, depth = 1, bytesPerVoxel = 1,
                  frameNumber = 7, timestamp = 1000, reserved = 0, crc = 0\<rparr>"

text \<open>The same frame with its last payload byte missing, and one with the magic zeroed.\<close>

definition frame_2x2_short :: "byte list" where
  "frame_2x2_short = take 35 frame_2x2"

definition frame_zero_magic :: "byte list" where
  "frame_zero_magic = [0, 0, 0, 0,  2, 0,  2, 0,  1, 0,  1, 0,  7, 0, 0, 0,
                       0xE8, 3, 0, 0, 0, 0, 0, 0,  0, 0, 0, 0,  0, 0, 0, 0,
                       10, 20, 30, 40]"

text \<open>
  Two buffers of 28 + 2^32 bytes: all zero, and all zero but for the byte at offset 28.
\<close>

definition buffer_4GiB_zero :: "byte list" where
  "buffer_4GiB_zero = replicate 28 0 @ 0 # replicate 4294967295 0"

definition buffer_4GiB_one :: "byte list" where
  "buffer_4GiB_one = replicate 28 0 @ 1 # replicate 4294967295 0"

text \<open>Headers that \<open>isValid\<close> accepts although one sample is not one byte.\<close>

definition header_depth2 :: UltraHeader where
  "header_depth2 = \<lparr>magicId = MAGIC_ID, width = 1, height = 1, depth = 2, bytesPerVoxel = 1,
                     frameNumber = 0, timestamp = 0, reserved = 0, crc = 0\<rparr>"

definition header_depth0 :: UltraHeader where
  "header_depth0 = \<lparr>magicId = MAGIC_ID, width = 1, height = 1, depth = 0, bytesPerVoxel = 1,
                     frameNumber = 0, timestamp = 0, reserved = 0, crc = 0\<rparr>"

definition header_bpv2 :: UltraHeader where
  "header_bpv2 = \<lparr>magicId = MAGIC_ID, width = 1, height = 1, depth = 1, bytesPerVoxel = 2,
                   frameNumber = 0, timestamp = 0, reserved = 0, crc = 0\<rparr>"

definition header_3x1x3 :: UltraHeader where
  "header_3x1x3 = \<lparr>magicId = MAGIC_ID, width = 3, height = 1, depth = 3, bytesPerVoxel = 1,
                    frameNumber = 1, timestamp = 5, reserved = 0, crc = 9\<rparr>"

text \<open>A 2 by 2 matrix of bytes that spans the whole range, and parameter records.\<close>

definition mat_full_range :: "byte Mat" where
  "mat_full_range = \<lparr>rows = 2, cols = 2, samples = [0, 10, 200, 255]\<rparr>"

definition mat_narrow :: "byte Mat" where
  "mat_narrow = \<lparr>rows = 2, cols = 2, samples = [100, 110, 120, 150]\<rparr>"

text \<open>Every stage off.\<close>

definition params_off :: ProcessingParams where
  "params_off = \<lparr>normalize_flag = False, denoise = False, gain = float_1,
                  gaussianBlur = False, blurKernelSize = 3, sharpen = False,
                  sharpenAmount = float_1, contrastAlpha = float_1, contrastBeta = 0,
                  enableAiPreprocessing = False\<rparr>"

text \<open>Only normalisation on.\<close>

definition params_normalize_only :: ProcessingParams where
  "params_normalize_only = params_off\<lparr>normalize_flag := True\<rparr>"

text \<open>The blur switched on with the even kernel size 4.\<close>

definition params_even_kernel :: ProcessingParams where
  "params_even_kernel = params_off\<lparr>gaussianBlur := True, blurKernelSize := 4\<rparr>"

text \<open>Normalisation, blur with kernel size 3 and sharpening on.\<close>

definition params_three_stages :: ProcessingParams where
  "params_three_stages = params_off\<lparr>normalize_flag := True, gaussianBlur := True, sharpen := True\<rparr>"


section \<open>Facts about the byte layout\<close>

lemma length_le_bytes [simp]: "length (le_bytes n w) = n"
  by (induction n arbitrary: w) auto

lemma le_word_le_bytes: "le_word (le_bytes n w) = take_bit (8 * n) (w :: 'a::len word)"
proof (induction n arbitrary: w)
  case 0
  show ?case by simp
next
  case (Suc n)
  have "ucast (ucast w :: byte) OR push_bit 8 (take_bit (8 * n) (drop_bit 8 w))
          = take_bit (8 + 8 * n) w"
  proof (rule bit_word_eqI)
    fix k assume k: "k < LENGTH('a)"
    show "bit (ucast (ucast w :: byte) OR push_bit 8 (take_bit (8 * n) (drop_bit 8 w))) k
            = bit (take_bit (8 + 8 * n) w) k"
      using k by (cases "k < 8") (auto simp add: bit_simps)
  qed
  then show ?case by (simp add: Suc)
qed

lemma le_word_le_bytes_full:
  "LENGTH('a::len) \<le> 8 * n \<Longrightarrow> le_word (le_bytes n w) = (w :: 'a word)"
  by (simp add: le_word_le_bytes take_bit_word_eq_self)

lemma length_encodeHeader [simp]: "length (encodeHeader h) = 32"
  by (simp add: encodeHeader_def)

section \<open>Facts about decoding\<close>

lemma bindE_simps [simp]:
  "bindE (Inl e) f = Inl e" "bindE (Inr v) f = f v"
  by (simp_all add: bindE_def)

lemma parseHeader_Some:
  "32 \<le> length data \<Longrightarrow> \<exists>h. parseHeader (Some data) = Inr h"
  by (simp add: parseHeader_def)

lemma unat_16_le: "unat (x :: 16 word) \<le> 65535"
proof -
  have "unat x < 2 ^ LENGTH(16)" by (rule unsigned_less)
  then show ?thesis by simp
qed

lemma unat_ucast_16_64: "unat (ucast (x :: 16 word) :: size_t) = unat x"
proof -
  have "unat x < 2 ^ 64" using unat_16_le [of x] by simp
  then show ?thesis
    by (simp add: unsigned_ucast_eq take_bit_nat_eq_self)
qed

lemma prod4_bound:
  fixes a b c d :: nat
  assumes "a \<le> 65535" "b \<le> 65535" "c \<le> 65535" "d \<le> 65535"
  shows "a * b * c * d \<le> 18445618199572250625"
proof -
  have "a * b \<le> 65535 * 65535" using assms by (intro mult_le_mono)
  then have "a * b * c \<le> 65535 * 65535 * 65535" using assms by (intro mult_le_mono)
  then have "a * b * c * d \<le> 65535 * 65535 * 65535 * 65535" using assms by (intro mult_le_mono)
  then show ?thesis by simp
qed

lemma unat_getFrameDataSize:
  "unat (getFrameDataSize h) = unat (width h) * unat (height h) * unat (depth h) * unat (bytesPerVoxel h)"
proof -
  let ?p = "unat (width h) * unat (height h) * unat (depth h) * unat (bytesPerVoxel h)"
  have b: "?p \<le> 18445618199572250625"
    by (rule prod4_bound) (rule unat_16_le)+
  have "unat (getFrameDataSize h) = ?p mod 2 ^ 64"
    by (simp add: getFrameDataSize_def unat_word_ariths unat_ucast_16_64 mod_mult_left_eq mod_mult_right_eq)
  also have "\<dots> = ?p" using b by simp
  finally show ?thesis .
qed

lemma unat_expectedSize:
  "unat ((of_nat HEADER_SIZE :: size_t) + getFrameDataSize h)
     = 32 + unat (width h) * unat (height h) * unat (depth h) * unat (bytesPerVoxel h)"
proof -
  let ?p = "unat (width h) * unat (height h) * unat (depth h) * unat (bytesPerVoxel h)"
  have b: "?p \<le> 18445618199572250625"
    by (rule prod4_bound) (rule unat_16_le)+
  have "unat ((of_nat HEADER_SIZE :: size_t) + getFrameDataSize h) = (32 + ?p) mod 2 ^ 64"
    by (simp add: HEADER_SIZE_def unat_word_ariths unat_getFrameDataSize)
  also have "\<dots> = 32 + ?p" using b by simp
  finally show ?thesis .
qed

lemma extractFrameData_Inl:
  "extractFrameData data h = Inl e \<Longrightarrow> e = OutOfBoundsRead \<or> e = OutOfBoundsWrite"
  by (auto simp add: extractFrameData_def memcpy_def Let_def split: if_splits)

lemma loadFrameFromBytes_unfold:
  assumes "HEADER_SIZE \<le> length data" "parseHeader (Some data) = Inr h"
  shows "loadFrameFromBytes data =
     (if \<not> isValid h then Inl InvalidHeader
      else if length data < 32 + unat (width h) * unat (height h) * unat (depth h) * unat (bytesPerVoxel h)
        then Inl DataSizeMismatch
      else bindE (extractFrameData data h) (\<lambda>m. Inr \<lparr>header = h, frame = m\<rparr>))"
  using assms by (simp add: loadFrameFromBytes_def Let_def unat_expectedSize)

lemma funpow8: "(f ^^ 8) x = f (f (f (f (f (f (f (f x)))))))"
  by (simp add: eval_nat_numeral)

lemmas crc32_eval = crc32_bytes_def crc32_byte_def funpow8 crc32_shift_def

lemma parseHeader_frame_2x2: "parseHeader (Some frame_2x2) = Inr header_2x2"
  by (simp add: frame_2x2_def header_2x2_def parseHeader_def read_le_def MAGIC_ID_def)

lemma parseHeader_frame_2x2_short: "parseHeader (Some frame_2x2_short) = Inr header_2x2"
  by (simp add: frame_2x2_short_def frame_2x2_def header_2x2_def parseHeader_def read_le_def MAGIC_ID_def)

lemma parseHeader_frame_zero_magic:
  "parseHeader (Some frame_zero_magic) = Inr (header_2x2\<lparr>magicId := 0\<rparr>)"
  by (simp add: frame_zero_magic_def header_2x2_def parseHeader_def read_le_def)

lemma isValid_header_2x2: "isValid header_2x2"
  by (simp add: isValid_def header_2x2_def)

text \<open>
  The model of zlib's function reproduces the check value of CRC-32, the checksum of the
  ASCII digits 1 to 9.
\<close>

lemma crc32_check_value:
  "crc32_bytes 0 [0x31, 0x32, 0x33, 0x34, 0x35, 0x36, 0x37, 0x38, 0x39] = 0xCBF43926"
  by (simp add: crc32_eval)

text \<open>
  One shift loses nothing: the top bit of the result is the bit shifted out. So two
  running values that differ still differ after any number of further bytes.
\<close>

lemma crc32_shift_top: "bit (crc32_shift c) 31 \<longleftrightarrow> bit c 0"
  using bit_imp_le_length [of c 32] by (auto simp add: crc32_shift_def bit_simps)

lemma xor_right_cancel: "(x :: 32 word) XOR p = y XOR p \<Longrightarrow> x = y"
proof -
  assume "x XOR p = y XOR p"
  then have "(x XOR p) XOR p = (y XOR p) XOR p" by simp
  then show "x = y" by (simp add: xor.assoc)
qed

lemma crc32_shift_inj:
  assumes "crc32_shift a = crc32_shift b"
  shows "a = b"
proof -
  from assms have "bit (crc32_shift a) 31 = bit (crc32_shift b) 31" by simp
  then have b0: "bit a 0 = bit b 0" by (simp only: crc32_shift_top)
  have d: "drop_bit 1 a = drop_bit 1 b"
  proof (cases "bit a 0")
    case True
    with b0 assms show ?thesis by (auto simp add: crc32_shift_def dest: xor_right_cancel)
  next
    case False
    with b0 assms show ?thesis by (simp add: crc32_shift_def)
  qed
  show ?thesis
  proof (rule bit_word_eqI)
    fix n assume "n < LENGTH(32)"
    show "bit a n = bit b n"
    proof (cases n)
      case 0
      with b0 show ?thesis by simp
    next
      case (Suc m)
      have "bit a (Suc m) = bit (drop_bit 1 a) m" by (simp add: bit_drop_bit_eq)
      also have "\<dots> = bit (drop_bit 1 b) m" by (simp only: d)
      also have "\<dots> = bit b (Suc m)" by (simp add: bit_drop_bit_eq)
      finally show ?thesis by (simp only: Suc)
    qed
  qed
qed

lemma crc32_byte_inj: "crc32_byte s b = crc32_byte t b \<Longrightarrow> s = t"
  unfolding crc32_byte_def funpow8
  by (auto dest!: crc32_shift_inj xor_right_cancel)

lemma foldl_crc32_byte_inj:
  "foldl crc32_byte s bs = foldl crc32_byte t bs \<Longrightarrow> s = t"
proof (induction bs arbitrary: s t)
  case Nil
  then show ?case by simp
next
  case (Cons b bs)
  then have "crc32_byte s b = crc32_byte t b" by simp
  then show ?case by (rule crc32_byte_inj)
qed

text \<open>
  The length that reaches \<^verbatim>\<open>crc32\<close>: \<^verbatim>\<open>data.size() - 28\<close> reduced modulo 2^32.
\<close>

lemma narrowed_length:
  assumes "28 \<le> n"
  shows "unat (ucast ((of_nat n :: size_t) - 28) :: uInt) = (n - 28) mod 2 ^ 32"
proof -
  have e: "(of_nat n :: size_t) - 28 = of_nat (n - 28)"
    using assms by simp
  have dv: "(2 :: nat) ^ 32 dvd 2 ^ 64"
    by (rule le_imp_power_dvd) simp
  have "unat (ucast (of_nat (n - 28) :: size_t) :: uInt) = (n - 28) mod 2 ^ 64 mod 2 ^ 32"
    by (simp add: unsigned_ucast_eq unat_of_nat take_bit_eq_mod)
  also have "\<dots> = (n - 28) mod 2 ^ 32"
    using dv by (rule mod_mod_cancel)
  finally show ?thesis by (simp only: e)
qed

lemma crc32_bytes_Nil: "crc32_bytes 0 [] = 0"
  by (simp add: crc32_bytes_def)

lemma validateCrc_narrowed:
  assumes "HEADER_SIZE \<le> length data"
  shows "validateCrc data expectedCrc \<longleftrightarrow>
           crc32_bytes 0 (take ((length data - 28) mod 2 ^ 32) (drop 28 data)) = expectedCrc"
proof -
  from assms have "28 \<le> length data" by (simp add: HEADER_SIZE_def)
  then have "unat (ucast ((of_nat (length data) :: size_t) - 28) :: uInt)
               = (length data - 28) mod 2 ^ 32"
    by (rule narrowed_length)
  with assms show ?thesis
    by (simp add: validateCrc_def calculateCrc32_def crc32_def Let_def)
qed

lemma validateCrc_below_4GiB:
  assumes "HEADER_SIZE \<le> length data" and "length data < 28 + 2 ^ 32"
  shows "validateCrc data expectedCrc \<longleftrightarrow> crc32_bytes 0 (drop 28 data) = expectedCrc"
proof -
  from assms have "(length data - 28) mod 2 ^ 32 = length data - 28"
    by (simp add: HEADER_SIZE_def)
  then show ?thesis
    by (simp add: validateCrc_narrowed [OF assms(1)])
qed

lemma length_buffer_4GiB:
  "length buffer_4GiB_zero = 28 + 2 ^ 32" "length buffer_4GiB_one = 28 + 2 ^ 32"
  by (simp_all add: buffer_4GiB_zero_def buffer_4GiB_one_def)

lemma crc32_bytes_tail_inj:
  assumes "crc32_bytes c (a # bs) = crc32_bytes c (b # bs)"
  shows "crc32_byte (c XOR 0xFFFFFFFF) a = crc32_byte (c XOR 0xFFFFFFFF) b"
proof -
  from assms have "foldl crc32_byte (crc32_byte (c XOR 0xFFFFFFFF) a) bs
                     = foldl crc32_byte (crc32_byte (c XOR 0xFFFFFFFF) b) bs"
    by (auto simp add: crc32_bytes_def dest: xor_right_cancel)
  then show ?thesis by (rule foldl_crc32_byte_inj)
qed

lemma parseHeader_encode: "parseHeader (Some (encode h payload)) = Inr h"
  by (simp add: parseHeader_def encode_def encodeHeader_def read_le_def le_word_le_bytes_full)

lemma length_encode: "length (encode h payload) = 32 + length payload"
  by (simp add: encode_def)

lemma drop_encode: "drop 32 (encode h payload) = payload"
  by (simp add: encode_def)

lemma extractFrameData_fits:
  assumes "unat (getFrameDataSize h) \<le> unat (height h) * unat (width h)"
    and "HEADER_SIZE + unat (getFrameDataSize h) \<le> length data"
  shows "extractFrameData data h =
           Inr \<lparr>rows = unat (height h), cols = unat (width h),
                samples = map Some (take (unat (getFrameDataSize h)) (drop HEADER_SIZE data))
                          @ replicate (unat (height h) * unat (width h) - unat (getFrameDataSize h)) None\<rparr>"
  using assms by (simp add: extractFrameData_def Let_def Mat_create_def memcpy_def)

lemma extractFrameData_overflows:
  assumes "unat (height h) * unat (width h) < unat (getFrameDataSize h)"
    and "HEADER_SIZE + unat (getFrameDataSize h) \<le> length data"
  shows "extractFrameData data h = Inl OutOfBoundsWrite"
  using assms by (simp add: extractFrameData_def Let_def Mat_create_def memcpy_def)

section \<open>Header validation and the size check\<close>

text \<open>
  C7. For every input of at least 32 bytes, \<open>loadFrameFromBytes\<close> fails with
  \<open>InvalidHeader\<close> exactly when the parsed magic differs from \<open>MAGIC_ID\<close>, or the
  parsed width, height or bytes-per-voxel field is 0. The header the equivalence speaks
  of is the one \<open>parseHeader\<close> returns, and it always returns one on such an input.
\<close>

theorem loadFrameFromBytes_InvalidHeader_iff:
  assumes "HEADER_SIZE \<le> length data"
  shows "\<exists>h. parseHeader (Some data) = Inr h \<and>
           (loadFrameFromBytes data = Inl InvalidHeader \<longleftrightarrow>
              (magicId h \<noteq> MAGIC_ID \<or> width h = 0 \<or> height h = 0 \<or> bytesPerVoxel h = 0))"
proof -
  from assms obtain h where h: "parseHeader (Some data) = Inr h"
    using parseHeader_Some by (auto simp add: HEADER_SIZE_def)
  have v: "isValid h \<longleftrightarrow> \<not> (magicId h \<noteq> MAGIC_ID \<or> width h = 0 \<or> height h = 0 \<or> bytesPerVoxel h = 0)"
    by (auto simp add: isValid_def word_gt_0)
  have "loadFrameFromBytes data = Inl InvalidHeader \<longleftrightarrow> \<not> isValid h"
    using extractFrameData_Inl [of data h]
    by (cases "extractFrameData data h") (auto simp add: loadFrameFromBytes_unfold [OF assms h])
  with h v show ?thesis by blast
qed

theorem loadFrameFromBytes_InvalidHeader_witness:
  "HEADER_SIZE \<le> length frame_zero_magic \<and> loadFrameFromBytes frame_zero_magic = Inl InvalidHeader
   \<and> HEADER_SIZE \<le> length frame_2x2 \<and> loadFrameFromBytes frame_2x2 \<noteq> Inl InvalidHeader"
proof -
  have l0: "HEADER_SIZE \<le> length frame_zero_magic"
    by (simp add: HEADER_SIZE_def frame_zero_magic_def)
  have l1: "HEADER_SIZE \<le> length frame_2x2"
    by (simp add: HEADER_SIZE_def frame_2x2_def)
  have m: "magicId (header_2x2\<lparr>magicId := 0\<rparr>) \<noteq> MAGIC_ID"
    by (simp add: MAGIC_ID_def)
  have ok: "\<not> (magicId header_2x2 \<noteq> MAGIC_ID \<or> width header_2x2 = 0 \<or> height header_2x2 = 0
              \<or> bytesPerVoxel header_2x2 = 0)"
    by (simp add: header_2x2_def)
  from loadFrameFromBytes_InvalidHeader_iff [OF l0] m
  have a: "loadFrameFromBytes frame_zero_magic = Inl InvalidHeader"
    by (simp add: parseHeader_frame_zero_magic)
  from loadFrameFromBytes_InvalidHeader_iff [OF l1] ok
  have b: "loadFrameFromBytes frame_2x2 \<noteq> Inl InvalidHeader"
    by (simp add: parseHeader_frame_2x2)
  from l0 l1 a b show ?thesis by simp
qed

text \<open>
  C8. For every input of at least 32 bytes whose parsed header is valid,
  \<open>loadFrameFromBytes\<close> fails with \<open>DataSizeMismatch\<close> exactly when the input is
  strictly shorter than 32 + width * height * depth * bytesPerVoxel, the product taken
  over the natural numbers: the \<^verbatim>\<open>size_t\<close> arithmetic of the source does not wrap on
  four 16-bit factors. An input longer than that total passes the size check.
\<close>

theorem loadFrameFromBytes_DataSizeMismatch_iff:
  assumes "HEADER_SIZE \<le> length data"
  shows "\<exists>h. parseHeader (Some data) = Inr h \<and>
           (isValid h \<longrightarrow>
              (loadFrameFromBytes data = Inl DataSizeMismatch \<longleftrightarrow>
                 length data < 32 + unat (width h) * unat (height h) * unat (depth h) * unat (bytesPerVoxel h)))"
proof -
  from assms obtain h where h: "parseHeader (Some data) = Inr h"
    using parseHeader_Some by (auto simp add: HEADER_SIZE_def)
  have "isValid h \<Longrightarrow> loadFrameFromBytes data = Inl DataSizeMismatch \<longleftrightarrow>
      length data < 32 + unat (width h) * unat (height h) * unat (depth h) * unat (bytesPerVoxel h)"
    using extractFrameData_Inl [of data h]
    by (cases "extractFrameData data h") (auto simp add: loadFrameFromBytes_unfold [OF assms h])
  with h show ?thesis by blast
qed

theorem loadFrameFromBytes_DataSizeMismatch_witness:
  "HEADER_SIZE \<le> length frame_2x2_short \<and> isValid header_2x2
   \<and> parseHeader (Some frame_2x2_short) = Inr header_2x2
   \<and> loadFrameFromBytes frame_2x2_short = Inl DataSizeMismatch
   \<and> loadFrameFromBytes frame_2x2 \<noteq> Inl DataSizeMismatch
   \<and> loadFrameFromBytes (frame_2x2 @ [0, 0, 0]) \<noteq> Inl DataSizeMismatch"
proof -
  have l0: "HEADER_SIZE \<le> length frame_2x2_short"
    by (simp add: HEADER_SIZE_def frame_2x2_short_def frame_2x2_def)
  have l1: "HEADER_SIZE \<le> length frame_2x2"
    by (simp add: HEADER_SIZE_def frame_2x2_def)
  have l2: "HEADER_SIZE \<le> length (frame_2x2 @ [0, 0, 0])"
    by (simp add: HEADER_SIZE_def frame_2x2_def)
  have p2: "parseHeader (Some (frame_2x2 @ [0, 0, 0])) = Inr header_2x2"
    by (simp add: frame_2x2_def header_2x2_def parseHeader_def read_le_def MAGIC_ID_def)
  have sz: "unat (width header_2x2) * unat (height header_2x2) * unat (depth header_2x2)
              * unat (bytesPerVoxel header_2x2) = 4"
    by (simp add: header_2x2_def)
  from loadFrameFromBytes_DataSizeMismatch_iff [OF l0]
  have a: "loadFrameFromBytes frame_2x2_short = Inl DataSizeMismatch"
    by (simp add: parseHeader_frame_2x2_short isValid_header_2x2 sz)
       (simp add: frame_2x2_short_def frame_2x2_def)
  from loadFrameFromBytes_DataSizeMismatch_iff [OF l1]
  have b: "loadFrameFromBytes frame_2x2 \<noteq> Inl DataSizeMismatch"
    by (simp add: parseHeader_frame_2x2 isValid_header_2x2 sz) (simp add: frame_2x2_def)
  from loadFrameFromBytes_DataSizeMismatch_iff [OF l2]
  have c: "loadFrameFromBytes (frame_2x2 @ [0, 0, 0]) \<noteq> Inl DataSizeMismatch"
    by (simp add: p2 isValid_header_2x2 sz) (simp add: frame_2x2_def)
  from l0 a b c isValid_header_2x2 parseHeader_frame_2x2_short show ?thesis by simp
qed

section \<open>The standalone checksum\<close>

text \<open>
  On the 2 by 2 test frame the stored checksum 0 is rejected and the CRC-32 of the eight
  bytes from offset 28 is accepted.
\<close>

lemma validateCrc_frame_2x2:
  "validateCrc frame_2x2 4031030148 \<and> \<not> validateCrc frame_2x2 0"
proof -
  have l: "HEADER_SIZE \<le> length frame_2x2" "length frame_2x2 < 28 + 2 ^ 32"
    by (simp_all add: HEADER_SIZE_def frame_2x2_def)
  have c: "crc32_bytes 0 (drop 28 frame_2x2) = 4031030148"
    by (simp add: frame_2x2_def crc32_eval)
  show ?thesis by (simp add: validateCrc_below_4GiB [OF l] c)
qed

text \<open>
  C6. \<open>validateCrc\<close> does not compare the expected value with the CRC-32 of all the
  bytes from offset 28 on every buffer of at least 32 bytes. On a buffer of 28 + 2^32
  bytes the length \<^verbatim>\<open>data.size() - 28\<close> becomes 0 when it is narrowed to the 32-bit
  length of \<^verbatim>\<open>crc32\<close>, so no byte is read and the checksum computed is 0. The two
  buffers below, all zero and all zero but for the byte at offset 28, are both accepted
  with the expected value 0, although the CRC-32 values of their bytes from offset 28
  differ, so at most one of them is 0. For buffers shorter than 28 + 2^32 bytes the
  comparison is the claimed one (\<open>validateCrc_below_4GiB\<close>).
\<close>

theorem validateCrc_ignores_4GiB_tail:
  "HEADER_SIZE \<le> length buffer_4GiB_zero \<and> HEADER_SIZE \<le> length buffer_4GiB_one
   \<and> validateCrc buffer_4GiB_zero 0 = True \<and> validateCrc buffer_4GiB_one 0 = True
   \<and> crc32_bytes 0 (drop 28 buffer_4GiB_zero) \<noteq> crc32_bytes 0 (drop 28 buffer_4GiB_one)"
proof -
  have l: "HEADER_SIZE \<le> length buffer_4GiB_zero" "HEADER_SIZE \<le> length buffer_4GiB_one"
    by (simp_all add: length_buffer_4GiB HEADER_SIZE_def)
  have n: "(length buffer_4GiB_zero - 28) mod 2 ^ 32 = 0"
    "(length buffer_4GiB_one - 28) mod 2 ^ 32 = 0"
    by (simp_all add: length_buffer_4GiB)
  have v: "validateCrc buffer_4GiB_zero 0" "validateCrc buffer_4GiB_one 0"
    unfolding validateCrc_narrowed [OF l(1)] validateCrc_narrowed [OF l(2)] n
    by (simp_all add: crc32_bytes_Nil)
  have d: "drop 28 buffer_4GiB_zero = 0 # replicate 4294967295 0"
    "drop 28 buffer_4GiB_one = 1 # replicate 4294967295 0"
    by (simp_all add: buffer_4GiB_zero_def buffer_4GiB_one_def)
  have "crc32_byte (0 XOR 0xFFFFFFFF) 0 \<noteq> crc32_byte (0 XOR 0xFFFFFFFF) 1"
    by (simp add: crc32_byte_def funpow8 crc32_shift_def)
  then have "crc32_bytes 0 (0 # replicate 4294967295 0) \<noteq> crc32_bytes 0 (1 # replicate 4294967295 0)"
    using crc32_bytes_tail_inj [of 0 0 "replicate 4294967295 0" 1] by blast
  with l v d show ?thesis by simp
qed

section \<open>The AI hook always fails\<close>

text \<open>
  C10. For every frame and every model path \<open>runAiInference\<close> fails with
  \<open>AiNotImplemented\<close>; it returns no frame, so in particular not its input.
\<close>

theorem runAiInference_always_fails:
  "runAiInference img modelPath = Inl AiNotImplemented \<and> (\<forall>out. runAiInference img modelPath \<noteq> Inr out)"
  by (simp add: runAiInference_def)

section \<open>Round trip\<close>

text \<open>
  With depth 1 and one byte per voxel, decoding a written frame returns the header and
  the payload that were written.
\<close>

lemma loadFrameFromBytes_encode_single_byte:
  assumes "isValid h" "depth h = 1" "bytesPerVoxel h = 1"
    and "length payload = unat (width h) * unat (height h)"
  shows "loadFrameFromBytes (encode h payload) =
           Inr \<lparr>header = h,
                frame = \<lparr>rows = unat (height h), cols = unat (width h), samples = map Some payload\<rparr>\<rparr>"
proof -
  have l: "HEADER_SIZE \<le> length (encode h payload)"
    by (simp add: length_encode HEADER_SIZE_def)
  have sz: "unat (getFrameDataSize h) = unat (width h) * unat (height h)"
    using assms by (simp add: unat_getFrameDataSize)
  have "extractFrameData (encode h payload) h =
          Inr \<lparr>rows = unat (height h), cols = unat (width h), samples = map Some payload\<rparr>"
    using assms sz
    by (subst extractFrameData_fits) (simp_all add: length_encode drop_encode HEADER_SIZE_def mult.commute)
  then show ?thesis
    using assms by (simp add: loadFrameFromBytes_unfold [OF l parseHeader_encode] length_encode)
qed

text \<open>
  C1. The round trip does not hold for every valid header. At the valid header of
  width 1, height 1, depth 2 and one byte per voxel, with its two payload bytes,
  \<open>extractFrameData\<close> copies two bytes into a matrix of one byte: the copy leaves the
  matrix. At the valid header of depth 0, with its empty payload, decoding returns a
  1 by 1 matrix whose byte was never written, which is not the empty payload.
\<close>

theorem round_trip_breaks_off_single_byte:
  "isValid header_depth2
   \<and> length [0xAA, 0xBB :: byte] = unat (width header_depth2) * unat (height header_depth2)
        * unat (depth header_depth2) * unat (bytesPerVoxel header_depth2)
   \<and> loadFrameFromBytes (encode header_depth2 [0xAA, 0xBB]) = Inl OutOfBoundsWrite
   \<and> isValid header_depth0
   \<and> length ([] :: byte list) = unat (width header_depth0) * unat (height header_depth0)
        * unat (depth header_depth0) * unat (bytesPerVoxel header_depth0)
   \<and> loadFrameFromBytes (encode header_depth0 []) =
        Inr \<lparr>header = header_depth0, frame = \<lparr>rows = 1, cols = 1, samples = [None]\<rparr>\<rparr>"
proof -
  have v2: "isValid header_depth2" by (simp add: isValid_def header_depth2_def)
  have v0: "isValid header_depth0" by (simp add: isValid_def header_depth0_def)
  have l2: "HEADER_SIZE \<le> length (encode header_depth2 [0xAA, 0xBB])"
    by (simp add: length_encode HEADER_SIZE_def)
  have l0: "HEADER_SIZE \<le> length (encode header_depth0 [])"
    by (simp add: length_encode HEADER_SIZE_def)
  have e2: "extractFrameData (encode header_depth2 [0xAA, 0xBB]) header_depth2 = Inl OutOfBoundsWrite"
    by (rule extractFrameData_overflows)
       (simp_all add: unat_getFrameDataSize length_encode HEADER_SIZE_def header_depth2_def)
  have e0: "extractFrameData (encode header_depth0 []) header_depth0
              = Inr \<lparr>rows = 1, cols = 1, samples = [None]\<rparr>"
    by (subst extractFrameData_fits)
       (simp_all add: unat_getFrameDataSize length_encode HEADER_SIZE_def header_depth0_def)
  have a: "loadFrameFromBytes (encode header_depth2 [0xAA, 0xBB]) = Inl OutOfBoundsWrite"
    using v2 e2 by (simp add: loadFrameFromBytes_unfold [OF l2 parseHeader_encode] length_encode)
       (simp add: header_depth2_def)
  have b: "loadFrameFromBytes (encode header_depth0 []) =
        Inr \<lparr>header = header_depth0, frame = \<lparr>rows = 1, cols = 1, samples = [None]\<rparr>\<rparr>"
    using v0 e0 by (simp add: loadFrameFromBytes_unfold [OF l0 parseHeader_encode] length_encode)
       (simp add: header_depth0_def)
  have c: "length [0xAA, 0xBB :: byte] = unat (width header_depth2) * unat (height header_depth2)
        * unat (depth header_depth2) * unat (bytesPerVoxel header_depth2)"
    by (simp add: header_depth2_def)
  have d: "length ([] :: byte list) = unat (width header_depth0) * unat (height header_depth0)
        * unat (depth header_depth0) * unat (bytesPerVoxel header_depth0)"
    by (simp add: header_depth0_def)
  from v2 v0 a b c d show ?thesis by blast
qed

section \<open>Payload extraction\<close>

text \<open>
  C4. For every input that passes the guards of \<open>loadFrameFromBytes\<close> (at least 32
  bytes, a valid header, at least 32 + frameDataSize bytes) and has depth 1 and one byte
  per voxel, \<open>extractFrameData\<close> copies exactly width * height bytes: they lie inside
  the input from offset 32 on, they fill the freshly allocated matrix of width * height
  bytes, and the matrix returned holds them. The precondition is needed: the valid
  header of width 3, height 1, depth 3 passes the same guards with its nine payload
  bytes, and the copy of nine bytes leaves the matrix of three.
\<close>

theorem extractFrameData_in_bounds_single_byte:
  "(\<forall>data h. HEADER_SIZE \<le> length data \<and> parseHeader (Some data) = Inr h \<and> isValid h
        \<and> HEADER_SIZE + unat (getFrameDataSize h) \<le> length data
        \<and> depth h = 1 \<and> bytesPerVoxel h = 1 \<longrightarrow>
      unat (getFrameDataSize h) = unat (width h) * unat (height h)
      \<and> HEADER_SIZE + unat (width h) * unat (height h) \<le> length data
      \<and> length (samples (Mat_create (unat (height h)) (unat (width h)))) = unat (width h) * unat (height h)
      \<and> extractFrameData data h =
          Inr \<lparr>rows = unat (height h), cols = unat (width h),
               samples = map Some (take (unat (width h) * unat (height h)) (drop HEADER_SIZE data))\<rparr>)
   \<and> (HEADER_SIZE \<le> length (encode header_3x1x3 [1, 2, 3, 4, 5, 6, 7, 8, 9])
      \<and> parseHeader (Some (encode header_3x1x3 [1, 2, 3, 4, 5, 6, 7, 8, 9])) = Inr header_3x1x3
      \<and> isValid header_3x1x3
      \<and> HEADER_SIZE + unat (getFrameDataSize header_3x1x3)
           \<le> length (encode header_3x1x3 [1, 2, 3, 4, 5, 6, 7, 8, 9])
      \<and> unat (getFrameDataSize header_3x1x3) = 9
      \<and> length (samples (Mat_create (unat (height header_3x1x3)) (unat (width header_3x1x3)))) = 3
      \<and> extractFrameData (encode header_3x1x3 [1, 2, 3, 4, 5, 6, 7, 8, 9]) header_3x1x3
           = Inl OutOfBoundsWrite)"
proof (intro conjI allI impI)
  fix data h
  assume a: "HEADER_SIZE \<le> length data \<and> parseHeader (Some data) = Inr h \<and> isValid h
        \<and> HEADER_SIZE + unat (getFrameDataSize h) \<le> length data
        \<and> depth h = 1 \<and> bytesPerVoxel h = 1"
  then show sz: "unat (getFrameDataSize h) = unat (width h) * unat (height h)"
    by (simp add: unat_getFrameDataSize)
  from a sz show "HEADER_SIZE + unat (width h) * unat (height h) \<le> length data" by simp
  show "length (samples (Mat_create (unat (height h)) (unat (width h)))) = unat (width h) * unat (height h)"
    by (simp add: Mat_create_def mult.commute)
  from a sz show "extractFrameData data h =
          Inr \<lparr>rows = unat (height h), cols = unat (width h),
               samples = map Some (take (unat (width h) * unat (height h)) (drop HEADER_SIZE data))\<rparr>"
    by (subst extractFrameData_fits) (simp_all add: mult.commute)
next
  show "HEADER_SIZE \<le> length (encode header_3x1x3 [1, 2, 3, 4, 5, 6, 7, 8, 9])"
    by (simp add: length_encode HEADER_SIZE_def)
  show "parseHeader (Some (encode header_3x1x3 [1, 2, 3, 4, 5, 6, 7, 8, 9])) = Inr header_3x1x3"
    by (rule parseHeader_encode)
  show "isValid header_3x1x3" by (simp add: isValid_def header_3x1x3_def)
  show sz: "unat (getFrameDataSize header_3x1x3) = 9"
    by (simp add: unat_getFrameDataSize header_3x1x3_def)
  show "HEADER_SIZE + unat (getFrameDataSize header_3x1x3)
           \<le> length (encode header_3x1x3 [1, 2, 3, 4, 5, 6, 7, 8, 9])"
    by (simp add: sz length_encode HEADER_SIZE_def)
  show "length (samples (Mat_create (unat (height header_3x1x3)) (unat (width header_3x1x3)))) = 3"
    by (simp add: Mat_create_def header_3x1x3_def)
  show "extractFrameData (encode header_3x1x3 [1, 2, 3, 4, 5, 6, 7, 8, 9]) header_3x1x3
           = Inl OutOfBoundsWrite"
  proof (rule extractFrameData_overflows)
    have "unat (height header_3x1x3) * unat (width header_3x1x3) = 3"
      by (simp add: header_3x1x3_def)
    then show "unat (height header_3x1x3) * unat (width header_3x1x3)
                 < unat (getFrameDataSize header_3x1x3)"
      by (simp add: sz)
    show "HEADER_SIZE + unat (getFrameDataSize header_3x1x3)
            \<le> length (encode header_3x1x3 [1, 2, 3, 4, 5, 6, 7, 8, 9])"
      by (simp add: sz length_encode HEADER_SIZE_def)
  qed
qed

theorem extractFrameData_in_bounds_witness:
  "HEADER_SIZE \<le> length frame_2x2 \<and> parseHeader (Some frame_2x2) = Inr header_2x2
   \<and> isValid header_2x2 \<and> HEADER_SIZE + unat (getFrameDataSize header_2x2) \<le> length frame_2x2
   \<and> depth header_2x2 = 1 \<and> bytesPerVoxel header_2x2 = 1
   \<and> extractFrameData frame_2x2 header_2x2 =
        Inr \<lparr>rows = 2, cols = 2, samples = [Some 10, Some 20, Some 30, Some 40]\<rparr>"
proof -
  have h: "HEADER_SIZE \<le> length frame_2x2 \<and> parseHeader (Some frame_2x2) = Inr header_2x2
     \<and> isValid header_2x2 \<and> HEADER_SIZE + unat (getFrameDataSize header_2x2) \<le> length frame_2x2
     \<and> depth header_2x2 = 1 \<and> bytesPerVoxel header_2x2 = 1"
    by (simp add: parseHeader_frame_2x2 isValid_header_2x2 unat_getFrameDataSize)
       (simp add: HEADER_SIZE_def frame_2x2_def header_2x2_def)
  from extractFrameData_in_bounds_single_byte [THEN conjunct1, rule_format, OF h]
  have "extractFrameData frame_2x2 header_2x2 =
          Inr \<lparr>rows = unat (height header_2x2), cols = unat (width header_2x2),
               samples = map Some (take (unat (width header_2x2) * unat (height header_2x2))
                 (drop HEADER_SIZE frame_2x2))\<rparr>" by blast
  then have "extractFrameData frame_2x2 header_2x2 =
        Inr \<lparr>rows = 2, cols = 2, samples = [Some 10, Some 20, Some 30, Some 40]\<rparr>"
    by (simp add: header_2x2_def HEADER_SIZE_def frame_2x2_def)
  with h show ?thesis by blast
qed

section \<open>The checksum inside decoding\<close>

text \<open>
  Where the copy fits the matrix, decoding returns the parsed header and the matrix, and
  nothing in the result depends on what \<open>validateCrc\<close> answered.
\<close>

lemma loadFrameFromBytes_checksum_ignored:
  assumes "HEADER_SIZE \<le> length data" and "parseHeader (Some data) = Inr h" and "isValid h"
    and "HEADER_SIZE + unat (getFrameDataSize h) \<le> length data"
    and "unat (getFrameDataSize h) \<le> unat (height h) * unat (width h)"
  shows "loadFrameFromBytes data =
           Inr \<lparr>header = h,
                frame = \<lparr>rows = unat (height h), cols = unat (width h),
                  samples = map Some (take (unat (getFrameDataSize h)) (drop HEADER_SIZE data))
                    @ replicate (unat (height h) * unat (width h) - unat (getFrameDataSize h)) None\<rparr>\<rparr>"
  using assms
  by (simp add: loadFrameFromBytes_unfold [OF assms(1,2)] extractFrameData_fits
      unat_getFrameDataSize HEADER_SIZE_def)

text \<open>
  C3. Decoding does not succeed on every input that passes the three guards. The frame
  with the valid header of width 1, height 1, depth 1 and two bytes per voxel, and its
  two payload bytes, passes them; its stored checksum does not match; and the copy of
  two bytes leaves the matrix of one byte. The failure comes from the extraction, not
  from the checksum.
\<close>

theorem loadFrameFromBytes_bpv2_leaves_matrix:
  "HEADER_SIZE \<le> length (encode header_bpv2 [0x11, 0x22])
   \<and> parseHeader (Some (encode header_bpv2 [0x11, 0x22])) = Inr header_bpv2
   \<and> isValid header_bpv2
   \<and> HEADER_SIZE + unat (getFrameDataSize header_bpv2) \<le> length (encode header_bpv2 [0x11, 0x22])
   \<and> validateCrc (encode header_bpv2 [0x11, 0x22]) (crc header_bpv2) = False
   \<and> loadFrameFromBytes (encode header_bpv2 [0x11, 0x22]) = Inl OutOfBoundsWrite"
proof -
  have l: "HEADER_SIZE \<le> length (encode header_bpv2 [0x11, 0x22])"
    by (simp add: length_encode HEADER_SIZE_def)
  have v: "isValid header_bpv2" by (simp add: isValid_def header_bpv2_def)
  have sz: "unat (getFrameDataSize header_bpv2) = 2"
    by (simp add: unat_getFrameDataSize header_bpv2_def)
  have e: "extractFrameData (encode header_bpv2 [0x11, 0x22]) header_bpv2 = Inl OutOfBoundsWrite"
  proof (rule extractFrameData_overflows)
    have "unat (height header_bpv2) * unat (width header_bpv2) = 1"
      by (simp add: header_bpv2_def)
    then show "unat (height header_bpv2) * unat (width header_bpv2) < unat (getFrameDataSize header_bpv2)"
      by (simp add: sz)
    show "HEADER_SIZE + unat (getFrameDataSize header_bpv2) \<le> length (encode header_bpv2 [0x11, 0x22])"
      by (simp add: sz length_encode HEADER_SIZE_def)
  qed
  have a: "loadFrameFromBytes (encode header_bpv2 [0x11, 0x22]) = Inl OutOfBoundsWrite"
    using v e by (simp add: loadFrameFromBytes_unfold [OF l parseHeader_encode] length_encode)
       (simp add: header_bpv2_def)
  have d: "drop 28 (encode header_bpv2 [0x11, 0x22]) = [0, 0, 0, 0, 0x11, 0x22]"
    by (simp add: encode_def encodeHeader_def header_bpv2_def eval_nat_numeral)
  have "crc32_bytes 0 [0, 0, 0, 0, 0x11, 0x22] \<noteq> crc header_bpv2"
    by (simp add: crc32_eval header_bpv2_def)
  then have c: "validateCrc (encode header_bpv2 [0x11, 0x22]) (crc header_bpv2) = False"
    by (subst validateCrc_below_4GiB) (simp_all add: length_encode HEADER_SIZE_def d)
  from l v sz a c show ?thesis by (simp add: parseHeader_encode length_encode HEADER_SIZE_def)
qed

section \<open>Facts about the pipeline\<close>

lemma bindE_assoc: "bindE (bindE r f) g = bindE r (\<lambda>v. bindE (f v) g)"
  by (cases r) simp_all

lemma run_stages_append:
  "run_stages cv p (xs @ ys) m = bindE (run_stages cv p xs m) (run_stages cv p ys)"
proof (induction xs arbitrary: m)
  case Nil
  show ?case by simp
next
  case (Cons st sts)
  show ?case
    by (cases "run_stage cv p st m") (simp_all add: Cons)
qed

lemma run_stages_gated_Cons:
  "run_stages cv p ((if c then [st] else []) @ sts) m =
     bindE (if c then run_stage cv p st m else Inr m) (run_stages cv p sts)"
  by simp

lemma filter_stage_order:
  "filter g stage_order =
     (if g Normalize then [Normalize] else []) @ (if g Gain then [Gain] else []) @
     (if g Denoise then [Denoise] else []) @ (if g GaussianBlur then [GaussianBlur] else []) @
     (if g Sharpen then [Sharpen] else []) @ (if g Contrast then [Contrast] else []) @ []"
  by (simp add: stage_order_def)

lemma sless_0_iff: "0 <s (k :: cint) \<longleftrightarrow> 0 < sint k"
  by (simp add: word_sless_alt)

lemma applyFilters_staged:
  assumes "\<not> Mat_empty img"
  shows "applyFilters cv img p = staged_pipeline stage_gate cv img p"
  unfolding staged_pipeline_def enabled_stages_def filter_stage_order run_stages_gated_Cons
  using assms
  by (simp add: applyFilters_def bindE_assoc final_rescale_def sless_0_iff cong: if_cong)

lemma keeps_size_normalize:
  "cv_keeps_size cv \<Longrightarrow> cv_normalize cv m a b = Inr m' \<Longrightarrow> rows m' = rows m \<and> cols m' = cols m"
  unfolding cv_keeps_size_def by meson

lemma keeps_size_fastNlMeansDenoising:
  "cv_keeps_size cv \<Longrightarrow> cv_fastNlMeansDenoising cv m h t s = Inr m' \<Longrightarrow>
     rows m' = rows m \<and> cols m' = cols m"
  unfolding cv_keeps_size_def by meson

lemma keeps_size_convertTo:
  "cv_keeps_size cv \<Longrightarrow> cv_convertTo cv m a b = Inr m' \<Longrightarrow> rows m' = rows m \<and> cols m' = cols m"
  unfolding cv_keeps_size_def by meson

lemma keeps_size_GaussianBlur:
  "cv_keeps_size cv \<Longrightarrow> cv_GaussianBlur cv m k s = Inr m' \<Longrightarrow> rows m' = rows m \<and> cols m' = cols m"
  unfolding cv_keeps_size_def by meson

lemma keeps_size_addWeighted:
  "cv_keeps_size cv \<Longrightarrow> cv_addWeighted cv m a m2 b g = Inr m' \<Longrightarrow>
     rows m' = rows m \<and> cols m' = cols m"
  unfolding cv_keeps_size_def by meson

lemma keeps_size_convertTo_8UC1:
  "cv_keeps_size cv \<Longrightarrow> cv_convertTo_8UC1 cv m = Inr m' \<Longrightarrow> rows m' = rows m \<and> cols m' = cols m"
  unfolding cv_keeps_size_def by meson

lemma applySharpen_keeps_size:
  assumes "cv_keeps_size cv" "applySharpen cv m amount = Inr m'"
  shows "rows m' = rows m \<and> cols m' = cols m"
proof -
  from assms(2) obtain blurred where
    "cv_addWeighted cv m (OnePlus amount) blurred (Negated amount) 0 = Inr m'"
    by (cases "cv_GaussianBlur cv m (0, 0) 3") (simp_all add: applySharpen_def)
  with assms(1) show ?thesis by (rule keeps_size_addWeighted)
qed

lemma run_stage_keeps_size:
  assumes "cv_keeps_size cv" "run_stage cv p st m = Inr m'"
  shows "rows m' = rows m \<and> cols m' = cols m"
proof (cases st)
  case Normalize
  with assms(2) have "cv_normalize cv m 0 255 = Inr m'" by (simp add: normalizeIntensity_def)
  with assms(1) show ?thesis by (rule keeps_size_normalize)
next
  case Gain
  with assms(2) have "cv_convertTo cv m (OfFloat (gain p)) 0 = Inr m'" by (simp add: applyGain_def)
  with assms(1) show ?thesis by (rule keeps_size_convertTo)
next
  case Denoise
  with assms(2) have "cv_fastNlMeansDenoising cv m 10 7 21 = Inr m'" by (simp add: applyDenoise_def)
  with assms(1) show ?thesis by (rule keeps_size_fastNlMeansDenoising)
next
  case GaussianBlur
  with assms(2) have
    "cv_GaussianBlur cv m (sint (blurKernelSize p), sint (blurKernelSize p)) 0 = Inr m'" by simp
  with assms(1) show ?thesis by (rule keeps_size_GaussianBlur)
next
  case Sharpen
  with assms(2) have "applySharpen cv m (sharpenAmount p) = Inr m'" by simp
  with assms(1) show ?thesis by (rule applySharpen_keeps_size)
next
  case Contrast
  with assms(2) have
    "cv_convertTo cv m (OfFloat (contrastAlpha p)) (sint (contrastBeta p)) = Inr m'" by simp
  with assms(1) show ?thesis by (rule keeps_size_convertTo)
qed

lemma run_stages_keeps_size:
  assumes "cv_keeps_size cv"
  shows "run_stages cv p sts m = Inr m' \<Longrightarrow> rows m' = rows m \<and> cols m' = cols m"
proof (induction sts arbitrary: m)
  case Nil
  then show ?case by simp
next
  case (Cons st sts)
  from Cons.prems obtain m1 where
    s: "run_stage cv p st m = Inr m1" and r: "run_stages cv p sts m1 = Inr m'"
    by (cases "run_stage cv p st m") simp_all
  from run_stage_keeps_size [OF assms s] Cons.IH [OF r] show ?case by simp
qed

lemma final_rescale_keeps_size:
  assumes "cv_keeps_size cv" "final_rescale cv m = Inr out"
  shows "rows out = rows m \<and> cols out = cols m"
proof -
  from assms(2) obtain clamped where
    n: "cv_normalize cv m 0 255 = Inr clamped" and c: "cv_convertTo_8UC1 cv clamped = Inr out"
    by (cases "cv_normalize cv m 0 255") (simp_all add: final_rescale_def)
  from keeps_size_normalize [OF assms(1) n] keeps_size_convertTo_8UC1 [OF assms(1) c]
  show ?thesis by simp
qed

lemma run_stage_returns:
  assumes "cv_never_raises cv"
  shows "\<exists>m'. run_stage cv p st m = Inr m'"
proof (cases st)
  case Normalize
  from assms have "\<exists>m'. cv_normalize cv m 0 255 = Inr m'"
    unfolding cv_never_raises_def by meson
  with Normalize show ?thesis by (simp add: normalizeIntensity_def)
next
  case Gain
  from assms have "\<exists>m'. cv_convertTo cv m (OfFloat (gain p)) 0 = Inr m'"
    unfolding cv_never_raises_def by meson
  with Gain show ?thesis by (simp add: applyGain_def)
next
  case Denoise
  from assms have "\<exists>m'. cv_fastNlMeansDenoising cv m 10 7 21 = Inr m'"
    unfolding cv_never_raises_def by meson
  with Denoise show ?thesis by (simp add: applyDenoise_def)
next
  case GaussianBlur
  from assms have
    "\<exists>m'. cv_GaussianBlur cv m (sint (blurKernelSize p), sint (blurKernelSize p)) 0 = Inr m'"
    unfolding cv_never_raises_def by meson
  with GaussianBlur show ?thesis by simp
next
  case Sharpen
  from assms obtain blurred where b: "cv_GaussianBlur cv m (0, 0) 3 = Inr blurred"
    unfolding cv_never_raises_def by meson
  from assms obtain m' where
    "cv_addWeighted cv m (OnePlus (sharpenAmount p)) blurred (Negated (sharpenAmount p)) 0 = Inr m'"
    unfolding cv_never_raises_def by meson
  with b Sharpen show ?thesis by (simp add: applySharpen_def)
next
  case Contrast
  from assms have
    "\<exists>m'. cv_convertTo cv m (OfFloat (contrastAlpha p)) (sint (contrastBeta p)) = Inr m'"
    unfolding cv_never_raises_def by meson
  with Contrast show ?thesis by simp
qed

lemma run_stages_returns:
  assumes "cv_never_raises cv"
  shows "\<exists>m'. run_stages cv p sts m = Inr m'"
proof (induction sts arbitrary: m)
  case Nil
  show ?case by simp
next
  case (Cons st sts)
  from run_stage_returns [OF assms] obtain m1 where "run_stage cv p st m = Inr m1" by blast
  with Cons.IH [of m1] show ?case by simp
qed

lemma final_rescale_returns:
  assumes "cv_never_raises cv"
  shows "\<exists>out. final_rescale cv m = Inr out"
proof -
  from assms obtain clamped where n: "cv_normalize cv m 0 255 = Inr clamped"
    unfolding cv_never_raises_def by meson
  from assms obtain out where "cv_convertTo_8UC1 cv clamped = Inr out"
    unfolding cv_never_raises_def by meson
  with n show ?thesis by (simp add: final_rescale_def)
qed

lemma uint_byte_le: "uint (x :: byte) \<le> 255"
proof -
  have "uint x < 2 ^ LENGTH(8)" by (rule unsigned_less)
  then show ?thesis by simp
qed

lemma unat_byte_le: "unat (x :: byte) \<le> 255"
proof -
  have "unat x < 2 ^ LENGTH(8)" by (rule unsigned_less)
  then show ?thesis by simp
qed

lemma saturate_u8_uint: "saturate_u8 (uint (x :: byte)) = x"
  using uint_byte_le [of x] by (simp add: saturate_u8_def min_def max_def)

lemma stretch_full_range: "0 \<le> v \<Longrightarrow> stretch 0 255 0 255 v = v"
  by (simp add: stretch_def)

lemma fold_min_full_range:
  fixes m :: "byte Mat"
  assumes "map uint (samples m) = v # vs" "0 \<in> set (samples m)"
  shows "fold min vs v = 0"
proof -
  have "fold min vs v = Min (set (v # vs))" by (simp only: Min.set_eq_fold)
  also have "set (v # vs) = uint ` set (samples m)" using assms(1) [symmetric] by simp
  also have "Min (uint ` set (samples m)) = 0"
  proof (rule Min_eqI)
    show "finite (uint ` set (samples m))" by simp
    show "0 \<le> y" if "y \<in> uint ` set (samples m)" for y using that by auto
    show "0 \<in> uint ` set (samples m)" using assms(2) by force
  qed
  finally show ?thesis .
qed

lemma fold_max_full_range:
  fixes m :: "byte Mat"
  assumes "map uint (samples m) = v # vs" "255 \<in> set (samples m)"
  shows "fold max vs v = 255"
proof -
  have "fold max vs v = Max (set (v # vs))" by (simp only: Max.set_eq_fold)
  also have "set (v # vs) = uint ` set (samples m)" using assms(1) [symmetric] by simp
  also have "Max (uint ` set (samples m)) = 255"
  proof (rule Max_eqI)
    show "finite (uint ` set (samples m))" by simp
    show "y \<le> 255" if "y \<in> uint ` set (samples m)" for y using that uint_byte_le by auto
    show "255 \<in> uint ` set (samples m)" using assms(2) by force
  qed
  finally show ?thesis .
qed

lemma minmax_normalize_full_range:
  assumes "0 \<in> set (samples m)" "255 \<in> set (samples m)"
  shows "minmax_normalize m 0 255 = Inr m"
proof -
  from assms(1) obtain v vs where vs: "map uint (samples m) = v # vs"
    by (cases "samples m") auto
  have "map (\<lambda>x. saturate_u8 (stretch 0 255 0 255 (uint x))) (samples m) = samples m"
    by (simp add: stretch_full_range saturate_u8_uint)
  then show ?thesis
    by (simp add: minmax_normalize_def vs fold_min_full_range [OF vs assms(1)]
        fold_max_full_range [OF vs assms(2)])
qed

lemma minmax_normalize_mat_full_range: "minmax_normalize mat_full_range 0 255 = Inr mat_full_range"
  by (rule minmax_normalize_full_range) (simp_all add: mat_full_range_def)

lemma minmax_normalize_keeps_size:
  "minmax_normalize m a b = Inr m' \<Longrightarrow> rows m' = rows m \<and> cols m' = cols m"
  by (auto simp add: minmax_normalize_def Let_def split: list.splits)

lemma minmax_normalize_returns: "\<exists>m'. minmax_normalize m a b = Inr m'"
  by (simp add: minmax_normalize_def Let_def split: list.splits)

lemma cv_lenient_keeps_size: "cv_keeps_size cv_lenient"
  using minmax_normalize_keeps_size
  by (auto simp add: cv_keeps_size_def cv_lenient_def cv_standin_def quantize_8U_def)

lemma cv_lenient_never_raises: "cv_never_raises cv_lenient"
  using minmax_normalize_returns
  by (simp add: cv_never_raises_def cv_lenient_def cv_standin_def quantize_8U_def)

lemma minmax_normalize_mat_narrow:
  "minmax_normalize mat_narrow 0 255 = Inr \<lparr>rows = 2, cols = 2, samples = [0, 51, 102, 255]\<rparr>"
  by (simp add: minmax_normalize_def mat_narrow_def stretch_def saturate_u8_def)

lemma minmax_normalize_stretched:
  "minmax_normalize \<lparr>rows = 2, cols = 2, samples = [0, 51, 102, 255]\<rparr> 0 255
     = Inr \<lparr>rows = 2, cols = 2, samples = [0, 51, 102, 255]\<rparr>"
  by (rule minmax_normalize_full_range) simp_all

lemma enabled_stages_subseq:
  assumes "\<And>st. g' p' st \<Longrightarrow> g p st"
  shows "subseq (enabled_stages g' p') (enabled_stages g p)"
proof -
  have "filter (g' p') stage_order = filter (g' p') (filter (g p) stage_order)"
    using assms by (auto intro: filter_cong)
  then show ?thesis
    unfolding enabled_stages_def by (metis subseq_filter_left)
qed

lemma Mat_empty_mat_full_range: "\<not> Mat_empty mat_full_range"
  by (simp add: Mat_empty_def mat_full_range_def)

lemma enabled_three_stages:
  "enabled_stages stage_gate params_three_stages = [Normalize, GaussianBlur, Sharpen]"
  by (simp add: enabled_stages_def stage_order_def params_three_stages_def params_off_def)

lemma enabled_normalize_only:
  "enabled_stages stage_gate params_normalize_only = [Normalize]"
  by (simp add: enabled_stages_def stage_order_def params_normalize_only_def params_off_def)

section \<open>Stage order and gates\<close>

text \<open>
  C2, as the code has it. For every non-empty matrix and every parameter record,
  \<open>applyFilters\<close> runs exactly the stages whose gate holds, in the fixed order normalize,
  gain, denoise, Gaussian blur, sharpen, contrast, and then the final rescale. The gates
  are those of the claim except for the blur, which runs iff the \<open>gaussianBlur\<close> flag is
  set and the kernel size is positive; oddness is not tested. The enabled stages are a
  subsequence of the fixed order, and switching stages off leaves a subsequence of the
  stages that were enabled: their relative order does not change.
\<close>

theorem applyFilters_runs_enabled_stages_in_order:
  assumes "\<not> Mat_empty img"
  shows "applyFilters cv img p = staged_pipeline stage_gate cv img p
         \<and> subseq (enabled_stages stage_gate p) stage_order
         \<and> (\<forall>p'. (\<forall>st. stage_gate p' st \<longrightarrow> stage_gate p st)
                \<longrightarrow> subseq (enabled_stages stage_gate p') (enabled_stages stage_gate p))"
proof (intro conjI allI impI)
  show "applyFilters cv img p = staged_pipeline stage_gate cv img p"
    by (rule applyFilters_staged [OF assms])
  show "subseq (enabled_stages stage_gate p) stage_order"
    by (simp add: enabled_stages_def)
  show "subseq (enabled_stages stage_gate p') (enabled_stages stage_gate p)"
    if "\<forall>st. stage_gate p' st \<longrightarrow> stage_gate p st" for p'
    using that by (intro enabled_stages_subseq) blast
qed

theorem applyFilters_runs_enabled_stages_witness:
  "\<not> Mat_empty mat_full_range
   \<and> enabled_stages stage_gate params_three_stages = [Normalize, GaussianBlur, Sharpen]
   \<and> applyFilters cv_standin mat_full_range params_three_stages
       = bindE (run_stages cv_standin params_three_stages [Normalize, GaussianBlur, Sharpen] mat_full_range)
           (final_rescale cv_standin)
   \<and> enabled_stages stage_gate params_normalize_only = [Normalize]
   \<and> subseq (enabled_stages stage_gate params_normalize_only) [Normalize, GaussianBlur, Sharpen]"
proof -
  note t = applyFilters_runs_enabled_stages_in_order [OF Mat_empty_mat_full_range,
      of cv_standin params_three_stages]
  have g: "\<forall>st. stage_gate params_normalize_only st \<longrightarrow> stage_gate params_three_stages st"
  proof (intro allI impI)
    fix st assume "stage_gate params_normalize_only st"
    then show "stage_gate params_three_stages st"
      by (cases st) (simp_all add: params_normalize_only_def params_three_stages_def params_off_def)
  qed
  from t have "applyFilters cv_standin mat_full_range params_three_stages
       = staged_pipeline stage_gate cv_standin mat_full_range params_three_stages" by blast
  moreover from t g have "subseq (enabled_stages stage_gate params_normalize_only)
       (enabled_stages stage_gate params_three_stages)" by blast
  ultimately show ?thesis
    using Mat_empty_mat_full_range enabled_normalize_only
    by (simp add: staged_pipeline_def enabled_three_stages)
qed

text \<open>
  C2, as the claim states it, fails at the blur switched on with kernel size 4. The
  claimed gate skips the blur there, so the claimed pipeline only rescales; the code
  calls \<^verbatim>\<open>cv::GaussianBlur\<close> with the even size, which the library rejects.
\<close>

theorem claimed_blur_gate_counterexample:
  "\<not> Mat_empty mat_full_range
   \<and> claimed_gate params_even_kernel GaussianBlur = False
   \<and> enabled_stages claimed_gate params_even_kernel = []
   \<and> staged_pipeline claimed_gate cv_standin mat_full_range params_even_kernel = Inr mat_full_range
   \<and> applyFilters cv_standin mat_full_range params_even_kernel = Inl CvException
   \<and> applyFilters cv_standin mat_full_range params_even_kernel
       = bindE (run_stages cv_standin params_even_kernel [GaussianBlur] mat_full_range)
           (final_rescale cv_standin)"
proof -
  have k: "sint (blurKernelSize params_even_kernel) = 4" "gaussianBlur params_even_kernel"
    by (simp_all add: params_even_kernel_def)
  have e: "enabled_stages claimed_gate params_even_kernel = []"
    by (simp add: enabled_stages_def stage_order_def k) (simp add: params_even_kernel_def params_off_def)
  have f: "final_rescale cv_standin mat_full_range = Inr mat_full_range"
    by (simp add: final_rescale_def cv_standin_def minmax_normalize_mat_full_range quantize_8U_def)
  have b: "run_stage cv_standin params_even_kernel GaussianBlur mat_full_range = Inl CvException"
    by (simp add: k cv_standin_def)
  have s: "enabled_stages stage_gate params_even_kernel = [GaussianBlur]"
    by (simp add: enabled_stages_def stage_order_def k) (simp add: params_even_kernel_def params_off_def)
  have a: "applyFilters cv_standin mat_full_range params_even_kernel
       = bindE (run_stages cv_standin params_even_kernel [GaussianBlur] mat_full_range)
           (final_rescale cv_standin)"
    by (simp only: applyFilters_staged [OF Mat_empty_mat_full_range] staged_pipeline_def s)
  from e f b a Mat_empty_mat_full_range k show ?thesis
    by (simp add: staged_pipeline_def)
qed

section \<open>The final rescale\<close>

text \<open>
  C5. For every non-empty matrix and every parameter record, the final rescale is not
  guarded by any option: every matrix \<open>applyFilters\<close> returns is the final rescale of
  what the enabled stages produced, it has the rows and columns of the input, and its
  samples are bytes, so each lies in [0, 255]. The OpenCV calls are assumed to return
  matrices of the size of their input. When no OpenCV call raises, \<open>applyFilters\<close>
  returns a matrix.
\<close>

theorem applyFilters_final_rescale:
  assumes "cv_keeps_size cv" and "\<not> Mat_empty img"
  shows "(\<forall>out. applyFilters cv img p = Inr out \<longrightarrow>
            rows out = rows img \<and> cols out = cols img \<and> (\<forall>v \<in> set (samples out). unat v \<le> 255)
            \<and> (\<exists>pre. run_stages cv p (enabled_stages stage_gate p) img = Inr pre
                  \<and> final_rescale cv pre = Inr out))
         \<and> (cv_never_raises cv \<longrightarrow> (\<exists>out. applyFilters cv img p = Inr out))"
proof (intro conjI allI impI)
  fix out
  assume a: "applyFilters cv img p = Inr out"
  then have "bindE (run_stages cv p (enabled_stages stage_gate p) img) (final_rescale cv) = Inr out"
    by (simp add: applyFilters_staged [OF assms(2)] staged_pipeline_def)
  then obtain pre where
    u: "run_stages cv p (enabled_stages stage_gate p) img = Inr pre" and f: "final_rescale cv pre = Inr out"
    by (cases "run_stages cv p (enabled_stages stage_gate p) img") simp_all
  from run_stages_keeps_size [OF assms(1) u] final_rescale_keeps_size [OF assms(1) f]
  show "rows out = rows img" and "cols out = cols img" by simp_all
  show "\<forall>v \<in> set (samples out). unat v \<le> 255" by (simp add: unat_byte_le)
  from u f show "\<exists>pre. run_stages cv p (enabled_stages stage_gate p) img = Inr pre
                  \<and> final_rescale cv pre = Inr out" by blast
next
  assume t: "cv_never_raises cv"
  from run_stages_returns [OF t] obtain pre where
    "run_stages cv p (enabled_stages stage_gate p) img = Inr pre" by blast
  moreover from final_rescale_returns [OF t] obtain out where "final_rescale cv pre = Inr out" by blast
  ultimately show "\<exists>out. applyFilters cv img p = Inr out"
    by (simp add: applyFilters_staged [OF assms(2)] staged_pipeline_def)
qed

theorem applyFilters_final_rescale_witness:
  "\<not> Mat_empty mat_narrow
   \<and> applyFilters cv_lenient mat_narrow params_off = Inr \<lparr>rows = 2, cols = 2, samples = [0, 51, 102, 255]\<rparr>
   \<and> rows mat_narrow = 2 \<and> cols mat_narrow = 2"
proof -
  have e: "\<not> Mat_empty mat_narrow" by (simp add: Mat_empty_def mat_narrow_def)
  note t = applyFilters_final_rescale [OF cv_lenient_keeps_size e, of params_off]
  from t cv_lenient_never_raises
  obtain out where o: "applyFilters cv_lenient mat_narrow params_off = Inr out" by blast
  with t have d: "rows out = rows mat_narrow" "cols out = cols mat_narrow" by blast+
  from t o obtain pre where
    u: "run_stages cv_lenient params_off (enabled_stages stage_gate params_off) mat_narrow = Inr pre"
    and f: "final_rescale cv_lenient pre = Inr out" by blast
  have "enabled_stages stage_gate params_off = []"
    by (simp add: enabled_stages_def stage_order_def params_off_def)
  with u have "pre = mat_narrow" by simp
  with f have "out = \<lparr>rows = 2, cols = 2, samples = [0, 51, 102, 255]\<rparr>"
    by (simp add: final_rescale_def cv_lenient_def cv_standin_def minmax_normalize_mat_narrow
        quantize_8U_def)
  with o d e show ?thesis by simp
qed

section \<open>Normalising twice\<close>

text \<open>
  C9. With only normalisation enabled, on a non-empty matrix of bytes in which both 0
  and 255 occur, applying the pipeline to its own result returns that result again:
  the second application changes no sample. Normalisation and quantisation are the
  exact min-max rescale modelled above.
\<close>

theorem normalize_only_idempotent:
  assumes "cv_normalize cv = minmax_normalize" and "cv_convertTo_8UC1 cv = quantize_8U"
    and "normalize_flag p" and "\<not> denoise p" and "gain p = float_1" and "\<not> gaussianBlur p"
    and "\<not> sharpen p" and "contrastAlpha p = float_1" and "contrastBeta p = 0"
    and "\<not> Mat_empty m" and "0 \<in> set (samples m)" and "255 \<in> set (samples m)"
  shows "\<exists>out. applyFilters cv m p = Inr out \<and> applyFilters cv out p = Inr out"
proof -
  have "applyFilters cv m p = Inr m"
    using assms
    by (simp add: applyFilters_def normalizeIntensity_def minmax_normalize_full_range quantize_8U_def)
  then show ?thesis by simp
qed

theorem normalize_only_idempotent_witness:
  "cv_normalize cv_standin = minmax_normalize \<and> cv_convertTo_8UC1 cv_standin = quantize_8U
   \<and> normalize_flag params_normalize_only \<and> \<not> denoise params_normalize_only
   \<and> gain params_normalize_only = float_1 \<and> \<not> gaussianBlur params_normalize_only
   \<and> \<not> sharpen params_normalize_only \<and> contrastAlpha params_normalize_only = float_1
   \<and> contrastBeta params_normalize_only = 0
   \<and> \<not> Mat_empty mat_full_range \<and> 0 \<in> set (samples mat_full_range) \<and> 255 \<in> set (samples mat_full_range)
   \<and> (\<exists>out. applyFilters cv_standin mat_full_range params_normalize_only = Inr out
          \<and> applyFilters cv_standin out params_normalize_only = Inr out)"
proof -
  have c: "cv_normalize cv_standin = minmax_normalize" "cv_convertTo_8UC1 cv_standin = quantize_8U"
    by (simp_all add: cv_standin_def)
  have p: "normalize_flag params_normalize_only" "\<not> denoise params_normalize_only"
    "gain params_normalize_only = float_1" "\<not> gaussianBlur params_normalize_only"
    "\<not> sharpen params_normalize_only" "contrastAlpha params_normalize_only = float_1"
    "contrastBeta params_normalize_only = 0"
    by (simp_all add: params_normalize_only_def params_off_def)
  have m: "\<not> Mat_empty mat_full_range" "0 \<in> set (samples mat_full_range)"
    "255 \<in> set (samples mat_full_range)"
    by (simp_all add: mat_full_range_def Mat_empty_def)
  from normalize_only_idempotent [OF c p m] c p m show ?thesis by blast
qed

end
